theory Spec2Isabelle
  imports Main "HOL-Library.Word" "HOL-Library.Multiset" "HOL-Library.Char_ord"
    "HOL-Library.List_Lexorder"
begin

section \<open>The cubicasa dataset cache: a model of \<^verbatim>\<open>src/cubicasa/__init__.py\<close>\<close>

text \<open>
  The module keeps two artifacts on disk (the SVG corpus and the geometry corpus), derives the
  second from the first, stores nested per-item records in a flat archive, decodes the archive's
  arrays with a shortcut reader, and serves reproducible samples. Every Python exception is a
  value of \<open>exn\<close>; a function that may raise returns \<open>exn + 'a\<close> with \<open>Inl\<close> for the raise.
\<close>

subsection \<open>Exceptions and dictionaries\<close>

text \<open>
  The exceptions the interpreter itself raises in this module are constructors of their own;
  \<open>Exception\<close> carries the name of any exception raised inside a library call that the model
  takes as a parameter.
\<close>

datatype exn = KeyError | ValueError | TypeError | IndexError | AttributeError
  | ZeroDivisionError | Exception string

text \<open>
  A Python \<^verbatim>\<open>dict\<close> is a list of key/value pairs in insertion order, with pairwise different
  keys. \<open>setitem\<close> is \<^verbatim>\<open>d[k] = v\<close>: an existing key keeps its position and takes the new
  value, a new key is appended. \<open>map_of\<close> is the lookup. \<open>setdefault\<close> is \<^verbatim>\<open>d.setdefault(k, dflt)\<close>
  and returns the value found or stored together with the dictionary.
\<close>

fun setitem :: "'k \<Rightarrow> 'a \<Rightarrow> ('k \<times> 'a) list \<Rightarrow> ('k \<times> 'a) list" where
  "setitem k v [] = [(k, v)]"
| "setitem k v ((k', v') # d) = (if k' = k then (k, v) # d else (k', v') # setitem k v d)"

definition setdefault :: "'k \<Rightarrow> 'a \<Rightarrow> ('k \<times> 'a) list \<Rightarrow> 'a \<times> ('k \<times> 'a) list" where
  "setdefault k dflt d = (case map_of d k of Some v \<Rightarrow> (v, d) | None \<Rightarrow> (dflt, setitem k dflt d))"

subsection \<open>KeyTree: \<^verbatim>\<open>flatten\<close> and \<^verbatim>\<open>unflatten\<close>\<close>

text \<open>
  A value of a nested mapping is either a nested \<^verbatim>\<open>dict\<close> (\<^verbatim>\<open>isinstance(v, dict)\<close>) or
  anything else, a leaf. In the cache the leaves are numpy arrays.
\<close>

datatype 'v node = Leaf 'v | Dict "(string \<times> 'v node) list"

text \<open>
  \<^verbatim>\<open>flatten\<close> (lines 60 to 68). \<open>flatten_into tree flat\<close> is the loop over \<^verbatim>\<open>tree.items()\<close>
  with the dictionary \<^verbatim>\<open>flat\<close> built so far; the inner loop stores every entry of the
  flattened child under the key \<^verbatim>\<open>f'{k}/{kk}'\<close>.
\<close>

fun flatten_into :: "(string \<times> 'v node) list \<Rightarrow> (string \<times> 'v) list \<Rightarrow> (string \<times> 'v) list" where
  "flatten_into [] flat = flat"
| "flatten_into ((k, Leaf x) # rest) flat = flatten_into rest (setitem k x flat)"
| "flatten_into ((k, Dict sub) # rest) flat =
     flatten_into rest
       (fold (\<lambda>(kk, vv) acc. setitem (k @ ''/'' @ kk) vv acc) (flatten_into sub []) flat)"

definition flatten :: "(string \<times> 'v node) list \<Rightarrow> (string \<times> 'v) list" where
  "flatten tree = flatten_into tree []"

text \<open>
  \<^verbatim>\<open>k.split('/')\<close>: the pieces between the separators; never empty.
\<close>

fun str_split :: "char \<Rightarrow> string \<Rightarrow> string list" where
  "str_split sep [] = [[]]"
| "str_split sep (c # cs) =
     (if c = sep then [] # str_split sep cs
      else (c # hd (str_split sep cs)) # tl (str_split sep cs))"

text \<open>
  \<^verbatim>\<open>unflatten\<close> (lines 70 to 78). \<open>walk parts v node\<close> is the body of the outer loop for one
  key: \<^verbatim>\<open>node = node.setdefault(p, type(d)())\<close> for every part but the last, then
  \<^verbatim>\<open>node[parts[-1]] = v\<close>. The Python mutates the dictionary that \<^verbatim>\<open>node\<close> refers to inside
  \<^verbatim>\<open>tree\<close>; the model writes the changed child back under its key. When \<^verbatim>\<open>setdefault\<close>
  returns a leaf, the next step treats an array as a mapping: a further \<^verbatim>\<open>setdefault\<close> on
  it raises \<^verbatim>\<open>AttributeError\<close>, the final item assignment with a string index raises
  \<^verbatim>\<open>IndexError\<close>. The source has no check of its own for such a conflict.
\<close>

fun walk :: "string list \<Rightarrow> 'v \<Rightarrow> (string \<times> 'v node) list \<Rightarrow> exn + (string \<times> 'v node) list" where
  "walk [] v node = Inl IndexError"
| "walk [p] v node = Inr (setitem p (Leaf v) node)"
| "walk (p # q # ps) v node =
     (case setdefault p (Dict []) node of
        (Dict sub, node') \<Rightarrow>
          (case walk (q # ps) v sub of
             Inl e \<Rightarrow> Inl e
           | Inr sub' \<Rightarrow> Inr (setitem p (Dict sub') node'))
      | (Leaf a, node') \<Rightarrow> Inl (if ps = [] then IndexError else AttributeError))"

fun unflatten_loop :: "(string \<times> 'v) list \<Rightarrow> (string \<times> 'v node) list \<Rightarrow> exn + (string \<times> 'v node) list" where
  "unflatten_loop [] tree = Inr tree"
| "unflatten_loop ((k, v) # d) tree =
     (case walk (str_split CHR ''/'' k) v tree of
        Inl e \<Rightarrow> Inl e
      | Inr tree' \<Rightarrow> unflatten_loop d tree')"

definition unflatten :: "(string \<times> 'v) list \<Rightarrow> exn + (string \<times> 'v node) list" where
  "unflatten d = unflatten_loop d []"

text \<open>
  The trees on which the round trip is exact: in every dictionary the keys are pairwise
  different (as in any \<^verbatim>\<open>dict\<close>) and free of \<^verbatim>\<open>/\<close>, and no nested dictionary is empty.
  The top-level dictionary may be empty.
\<close>

fun roundtrippable :: "(string \<times> 'v node) list \<Rightarrow> bool" where
  "roundtrippable [] = True"
| "roundtrippable ((k, Leaf x) # rest) =
     (CHR ''/'' \<notin> set k \<and> k \<notin> fst ` set rest \<and> roundtrippable rest)"
| "roundtrippable ((k, Dict sub) # rest) =
     (CHR ''/'' \<notin> set k \<and> k \<notin> fst ` set rest \<and> sub \<noteq> [] \<and> roundtrippable sub
      \<and> roundtrippable rest)"

text \<open>
  The entries of the flat record of a tree, written without the dictionary updates: what
  \<^verbatim>\<open>flatten\<close> computes when no key is stored twice.
\<close>

fun flat_entries :: "(string \<times> 'v node) list \<Rightarrow> (string \<times> 'v) list" where
  "flat_entries [] = []"
| "flat_entries ((k, Leaf x) # rest) = (k, x) # flat_entries rest"
| "flat_entries ((k, Dict sub) # rest) =
     map (\<lambda>(kk, vv). (k @ ''/'' @ kk, vv)) (flat_entries sub) @ flat_entries rest"


subsection \<open>BinaryArrayCodec: \<^verbatim>\<open>fastload\<close>\<close>

type_synonym bytes = "8 word list"

text \<open>
  The values \<^verbatim>\<open>ast.literal_eval\<close> returns, as far as this module inspects them: strings,
  integers, tuples, lists and dictionaries; \<open>PyOther\<close> stands for every other literal.
\<close>

datatype pyval = PyStr string | PyInt int | PyTuple "pyval list" | PyList "pyval list"
  | PyDict "(pyval \<times> pyval) list" | PyOther

text \<open>
  A numpy array is its element type, its shape and its buffer in row-major order. Two arrays
  are bit-identical when the three agree.
\<close>

record nparray =
  descr :: pyval
  shape :: "nat list"
  buf :: bytes

text \<open>
  The collaborators outside this module are parameters of the model. \<open>net\<close> is the body a
  \<^verbatim>\<open>requests.get\<close> of a URL delivers (or the exception it ends in); \<open>svgs_json\<close> is lines 44
  to 52, the JSON text of the table of SVG files in the downloaded archive; \<open>read_json\<close>
  gives the rows of the table as pairs of the columns \<^verbatim>\<open>id\<close> and \<^verbatim>\<open>svg\<close>, the only ones read
  here; \<open>str_of\<close> is \<^verbatim>\<open>str\<close> on a row's id; \<open>geometry\<close> is \<^verbatim>\<open>geometry.geometry\<close>;
  \<open>savez\<close> is \<^verbatim>\<open>np.savez\<close> into a buffer; \<open>unzip\<close> lists the entries of a zip archive with
  their contents; \<open>literal_eval\<close> is \<^verbatim>\<open>ast.literal_eval\<close> after \<^verbatim>\<open>bytes.decode\<close>;
  \<open>itemsize\<close> is the element size of \<^verbatim>\<open>np.dtype(d)\<close>, \<open>None\<close> when numpy does not
  understand \<^verbatim>\<open>d\<close>; \<open>permutation\<close> is \<^verbatim>\<open>np.random.RandomState(1).permutation\<close>, a function
  of its argument because the generator is created afresh from the seed 1 at every call.
\<close>

record 'i env =
  net :: "string \<Rightarrow> exn + bytes"
  gzip_compress :: "bytes \<Rightarrow> bytes"
  gzip_decompress :: "bytes \<Rightarrow> exn + bytes"
  svgs_json :: "bytes \<Rightarrow> exn + bytes"
  read_json :: "bytes \<Rightarrow> exn + ('i \<times> string) list"
  str_of :: "'i \<Rightarrow> string"
  geometry :: "string \<Rightarrow> exn + nparray node"
  savez :: "(string \<times> nparray) list \<Rightarrow> exn + bytes"
  unzip :: "bytes \<Rightarrow> exn + (string \<times> bytes) list"
  literal_eval :: "bytes \<Rightarrow> exn + pyval"
  itemsize :: "pyval \<Rightarrow> nat option"
  permutation :: "string list \<Rightarrow> string list"

text \<open>
  \<^verbatim>\<open>header[key]\<close>: a dictionary without the key raises \<^verbatim>\<open>KeyError\<close>; a string, a tuple
  or a list indexed by a string raises \<^verbatim>\<open>TypeError\<close>, as does every other literal.
\<close>

definition getitem :: "pyval \<Rightarrow> string \<Rightarrow> exn + pyval" where
  "getitem header key =
     (case header of
        PyDict items \<Rightarrow> (case map_of items (PyStr key) of None \<Rightarrow> Inl KeyError | Some v \<Rightarrow> Inr v)
      | _ \<Rightarrow> Inl TypeError)"

text \<open>
  \<^verbatim>\<open>np.frombuffer(data, dtype=d)\<close>: a one-dimensional array over the whole buffer. numpy
  raises \<^verbatim>\<open>TypeError\<close> for a type it does not understand and \<^verbatim>\<open>ValueError\<close> for an element
  size of zero or a buffer that is not a whole number of elements.
\<close>

definition frombuffer :: "'i env \<Rightarrow> bytes \<Rightarrow> pyval \<Rightarrow> exn + nparray" where
  "frombuffer E data d =
     (case itemsize E d of
        None \<Rightarrow> Inl TypeError
      | Some sz \<Rightarrow>
          if sz = 0 \<or> length data mod sz \<noteq> 0 then Inl ValueError
          else Inr \<lparr>descr = d, shape = [length data div sz], buf = data\<rparr>)"

text \<open>
  \<^verbatim>\<open>a.reshape(s)\<close>. The requested shape is a tuple or a list of integers or one integer,
  anything else raises \<^verbatim>\<open>TypeError\<close>. numpy takes a negative entry as the one dimension to
  infer, and raises \<^verbatim>\<open>ValueError\<close> when there are two of them or when the number of elements
  does not fit. The buffer is not touched.
\<close>

fun shape_dims :: "pyval \<Rightarrow> exn + int list" where
  "shape_dims (PyInt n) = Inr [n]"
| "shape_dims (PyTuple vs) =
     (if list_all (\<lambda>v. case v of PyInt n \<Rightarrow> True | _ \<Rightarrow> False) vs
      then Inr (map (\<lambda>v. case v of PyInt n \<Rightarrow> n | _ \<Rightarrow> 0) vs)
      else Inl TypeError)"
| "shape_dims (PyList vs) =
     (if list_all (\<lambda>v. case v of PyInt n \<Rightarrow> True | _ \<Rightarrow> False) vs
      then Inr (map (\<lambda>v. case v of PyInt n \<Rightarrow> n | _ \<Rightarrow> 0) vs)
      else Inl TypeError)"
| "shape_dims _ = Inl TypeError"

definition reshape_dims :: "int list \<Rightarrow> nat \<Rightarrow> exn + nat list" where
  "reshape_dims dims n =
     (let unknown = filter (\<lambda>d. d < 0) dims;
          known = prod_list (filter (\<lambda>d. 0 \<le> d) dims)
      in if 1 < length unknown then Inl ValueError
         else if length unknown = 1 then
           (if known = 0 \<or> int n mod known \<noteq> 0 then Inl ValueError
            else Inr (map (\<lambda>d. if d < 0 then nat (int n div known) else nat d) dims))
         else if known = int n then Inr (map nat dims)
         else Inl ValueError)"

definition reshape :: "'i env \<Rightarrow> nparray \<Rightarrow> pyval \<Rightarrow> exn + nparray" where
  "reshape E a s =
     (case shape_dims s of
        Inl e \<Rightarrow> Inl e
      | Inr dims \<Rightarrow>
          (case reshape_dims dims (prod_list (shape a)) of
             Inl e \<Rightarrow> Inl e
           | Inr shp \<Rightarrow> Inr (a\<lparr>shape := shp\<rparr>)))"

text \<open>
  \<^verbatim>\<open>fastload\<close> (lines 89 to 99). \<^verbatim>\<open>raw[8:9]\<close> is empty when the blob has fewer than nine
  bytes, and indexing the empty array raises \<^verbatim>\<open>IndexError\<close>. The slices
  \<^verbatim>\<open>raw[10:10+headerlen]\<close> and \<^verbatim>\<open>raw[10+headerlen:]\<close> are \<open>take\<close> and \<open>drop\<close>, which clip
  at the end of the blob as Python's slices do. In the last line Python evaluates
  \<^verbatim>\<open>header['descr']\<close>, then \<^verbatim>\<open>np.frombuffer\<close>, then \<^verbatim>\<open>header['shape']\<close>, then
  \<^verbatim>\<open>reshape\<close>.
\<close>

definition fastload :: "'i env \<Rightarrow> bytes \<Rightarrow> exn + nparray" where
  "fastload E raw =
     (if length raw \<le> 8 then Inl IndexError
      else
        let headerlen = unat (raw ! 8) in
        case literal_eval E (take headerlen (drop 10 raw)) of
          Inl e \<Rightarrow> Inl e
        | Inr header \<Rightarrow>
            (case getitem header ''descr'' of
               Inl e \<Rightarrow> Inl e
             | Inr d \<Rightarrow>
                 (case frombuffer E (drop (10 + headerlen) raw) d of
                    Inl e \<Rightarrow> Inl e
                  | Inr a \<Rightarrow>
                      (case getitem header ''shape'' of
                         Inl e \<Rightarrow> Inl e
                       | Inr s \<Rightarrow> reshape E a s))))"

subsection \<open>The world: files, directories, requests and the log\<close>

text \<open>
  What the module reads and changes outside its own variables: the files by path, the
  directories created, the URLs requested (in order) and the records written to the log (in
  order). An operation of the module takes a world and returns its result with the world
  after it.
\<close>

record world =
  files :: "string \<rightharpoonup> bytes"
  dirs :: "string set"
  requested :: "string list"
  logged :: "string list"

definition log_info :: "string \<Rightarrow> world \<Rightarrow> world" where
  "log_info msg w = w\<lparr>logged := logged w @ [msg]\<rparr>"

definition mkdir :: "string \<Rightarrow> world \<Rightarrow> world" where
  "mkdir d w = w\<lparr>dirs := insert d (dirs w)\<rparr>"

definition write_bytes :: "string \<Rightarrow> bytes \<Rightarrow> world \<Rightarrow> world" where
  "write_bytes p bs w = w\<lparr>files := (files w)(p \<mapsto> bs)\<rparr>"

definition read_bytes :: "string \<Rightarrow> world \<Rightarrow> exn + bytes" where
  "read_bytes p w =
     (case files w p of None \<Rightarrow> Inl (Exception ''FileNotFoundError'') | Some bs \<Rightarrow> Inr bs)"

text \<open>
  \<^verbatim>\<open>download\<close> (lines 18 to 28): one log record, one request, the whole body in memory.
\<close>

definition download :: "'i env \<Rightarrow> string \<Rightarrow> world \<Rightarrow> (exn + bytes) \<times> world" where
  "download E url w =
     (let w1 = log_info (''Downloading '' @ url) w
      in (net E url, w1\<lparr>requested := requested w1 @ [url]\<rparr>))"

text \<open>\<^verbatim>\<open>cubicasa5k\<close> (lines 30 to 36).\<close>

definition cubicasa5k :: "'i env \<Rightarrow> world \<Rightarrow> (exn + string) \<times> world" where
  "cubicasa5k E w =
     (let p = ''.cache/cubicasa.zip'' in
      if files w p = None then
        (let url = ''https://zenodo.org/record/2613548/files/cubicasa5k.zip?download=1'';
             w1 = mkdir ''.cache'' w
         in case download E url w1 of
              (Inl e, w2) \<Rightarrow> (Inl e, w2)
            | (Inr bs, w2) \<Rightarrow> (Inr p, write_bytes p bs w2))
      else (Inr p, w))"

subsection \<open>ArtifactCache: \<^verbatim>\<open>svg_data\<close> and \<^verbatim>\<open>geometry_data\<close>\<close>

text \<open>
  \<^verbatim>\<open>svg_data\<close> (lines 38 to 58). \<open>svg_data_fill\<close> is the body of
  \<^verbatim>\<open>if not p.exists() or regenerate\<close> (lines 41 to 57); \<open>svg_data\<close> runs it under that
  condition and then reads the file back.
\<close>

definition svg_data_fill :: "'i env \<Rightarrow> bool \<Rightarrow> world \<Rightarrow> (exn + unit) \<times> world" where
  "svg_data_fill E regenerate w =
     (let p = ''.cache/cubicasa-svgs.json.gz'';
          w1 = mkdir ''.cache'' w
      in if regenerate then
           (let w2 = log_info
                  ''Regenerating SVG cache from cubicasa dataset. This will require a 5G download.''
                  w1
            in case cubicasa5k E w2 of
                 (Inl e, w3) \<Rightarrow> (Inl e, w3)
               | (Inr zp, w3) \<Rightarrow>
                   (case read_bytes zp w3 of
                      Inl e \<Rightarrow> (Inl e, w3)
                    | Inr zbs \<Rightarrow>
                        (case svgs_json E zbs of
                           Inl e \<Rightarrow> (Inl e, w3)
                         | Inr js \<Rightarrow> (Inr (), write_bytes p (gzip_compress E js) w3))))
         else
           (let url = ''https://www.dropbox.com/s/iblduqobhqomz4g/cubicasa-svgs.json.gzip?raw=1''
            in case download E url w1 of
                 (Inl e, w2) \<Rightarrow> (Inl e, w2)
               | (Inr bs, w2) \<Rightarrow> (Inr (), write_bytes p bs w2)))"

definition svg_data :: "'i env \<Rightarrow> bool \<Rightarrow> world \<Rightarrow> (exn + ('i \<times> string) list) \<times> world" where
  "svg_data E regenerate w =
     (let p = ''.cache/cubicasa-svgs.json.gz'' in
      case (if files w p = None \<or> regenerate then svg_data_fill E regenerate w
            else (Inr (), w)) of
        (Inl e, w') \<Rightarrow> (Inl e, w')
      | (Inr u, w') \<Rightarrow>
          (case read_bytes p w' of
             Inl e \<Rightarrow> (Inl e, w')
           | Inr bs \<Rightarrow>
               (case gzip_decompress E bs of
                  Inl e \<Rightarrow> (Inl e, w')
                | Inr js \<Rightarrow> (read_json E js, w'))))"

text \<open>
  \<^verbatim>\<open>safe_geometry\<close> (lines 80 to 87): the result of the transform, or, when it raises
  anything at all, one log record with the id and the value \<^verbatim>\<open>None\<close>.
\<close>

definition safe_geometry :: "'i env \<Rightarrow> 'i \<Rightarrow> string \<Rightarrow> world \<Rightarrow> nparray node option \<times> world" where
  "safe_geometry E i svg w =
     (case geometry E svg of
        Inr g \<Rightarrow> (Some g, w)
      | Inl e \<Rightarrow> (None, log_info (''Geometry generation failed on on #'' @ str_of E i) w))"

text \<open>
  Modelled from the spec: \<^verbatim>\<open>rebar.parallel\<close>, the worker pool of lines 110 and 111, whose
  source is not part of the repository's files at hand. The spec has every item given to the
  transform exactly once and every result resolved before the pool returns, with no state
  shared between items; the model runs the items in the order of the rows. The results are
  collected by the dictionary comprehension of line 111 under the key \<^verbatim>\<open>str(row.id)\<close>.
\<close>

fun pool_wait ::
  "'i env \<Rightarrow> ('i \<times> string) list \<Rightarrow> (string \<times> nparray node option) list \<Rightarrow> world
   \<Rightarrow> (string \<times> nparray node option) list \<times> world" where
  "pool_wait E [] gs w = (gs, w)"
| "pool_wait E ((i, svg) # rows) gs w =
     (case safe_geometry E i svg w of
        (r, w') \<Rightarrow> pool_wait E rows (setitem (str_of E i) r gs) w')"

text \<open>
  Lines 110 to 112 up to the call of \<^verbatim>\<open>flatten\<close>: the pool's results without the entries that
  are \<^verbatim>\<open>None\<close>.
\<close>

definition derive :: "'i env \<Rightarrow> ('i \<times> string) list \<Rightarrow> world \<Rightarrow> (string \<times> nparray node) list \<times> world" where
  "derive E rows w =
     (case pool_wait E rows [] w of
        (gs, w') \<Rightarrow> (List.map_filter (\<lambda>(k, v). map_option (Pair k) v) gs, w'))"

text \<open>
  \<^verbatim>\<open>geometry_data\<close> (lines 101 to 126). \<open>geometry_data_fill\<close> is the body of
  \<^verbatim>\<open>if not p.exists() or regenerate\<close> (lines 107 to 120); \<open>load_entries\<close> is the dictionary
  comprehension of line 125, which cuts the last four characters off every entry name.
\<close>

definition geometry_data_fill :: "'i env \<Rightarrow> bool \<Rightarrow> world \<Rightarrow> (exn + unit) \<times> world" where
  "geometry_data_fill E regenerate w =
     (let p = ''.cache/cubicasa-geometry.npz.gz'';
          w1 = mkdir ''.cache'' w
      in if regenerate then
           (let w2 = log_info ''Regenerating geometry cache from SVG cache.'' w1
            in case svg_data E False w2 of
                 (Inl e, w3) \<Rightarrow> (Inl e, w3)
               | (Inr rows, w3) \<Rightarrow>
                   (case derive E rows w3 of
                      (gs, w4) \<Rightarrow>
                        (case savez E (flatten gs) of
                           Inl e \<Rightarrow> (Inl e, w4)
                         | Inr bs \<Rightarrow> (Inr (), write_bytes p (gzip_compress E bs) w4))))
         else
           (case download E '''' w1 of
              (Inl e, w2) \<Rightarrow> (Inl e, w2)
            | (Inr bs, w2) \<Rightarrow> (Inr (), write_bytes p bs w2)))"

fun load_entries ::
  "'i env \<Rightarrow> (string \<times> bytes) list \<Rightarrow> (string \<times> nparray) list \<Rightarrow> exn + (string \<times> nparray) list" where
  "load_entries E [] flat = Inr flat"
| "load_entries E ((n, bs) # es) flat =
     (case fastload E bs of
        Inl e \<Rightarrow> Inl e
      | Inr a \<Rightarrow> load_entries E es (setitem (take (length n - 4) n) a flat))"

definition geometry_data ::
  "'i env \<Rightarrow> bool \<Rightarrow> world \<Rightarrow> (exn + (string \<times> nparray node) list) \<times> world" where
  "geometry_data E regenerate w =
     (let p = ''.cache/cubicasa-geometry.npz.gz'' in
      case (if files w p = None \<or> regenerate then geometry_data_fill E regenerate w
            else (Inr (), w)) of
        (Inl e, w') \<Rightarrow> (Inl e, w')
      | (Inr u, w') \<Rightarrow>
          (case read_bytes p w' of
             Inl e \<Rightarrow> (Inl e, w')
           | Inr gz \<Rightarrow>
               (case gzip_decompress E gz of
                  Inl e \<Rightarrow> (Inl e, w')
                | Inr raw \<Rightarrow>
                    (case unzip E raw of
                       Inl e \<Rightarrow> (Inl e, w')
                     | Inr es \<Rightarrow>
                         (case load_entries E es [] of
                            Inl e \<Rightarrow> (Inl e, w')
                          | Inr flat \<Rightarrow> (unflatten flat, w'))))))"

subsection \<open>DatasetSampler: \<^verbatim>\<open>sample\<close>\<close>

text \<open>
  The items of the cache carry their id, a string, next to their arrays, so a leaf of a cached
  item is one or the other.
\<close>

datatype cell = Arr nparray | Str string

type_synonym cache = "(string \<times> cell node) list"

text \<open>
  Line 134: every item becomes \<^verbatim>\<open>{'id': k, **v}\<close>; the key \<^verbatim>\<open>id\<close> comes first and an \<^verbatim>\<open>id\<close>
  entry of the item itself overwrites its value. Unpacking a value that is not a mapping
  raises \<^verbatim>\<open>TypeError\<close>.
\<close>

fun add_ids :: "cache \<Rightarrow> exn + cache" where
  "add_ids [] = Inr []"
| "add_ids ((k, Leaf x) # c) = Inl TypeError"
| "add_ids ((k, Dict v) # c) =
     (case add_ids c of
        Inl e \<Rightarrow> Inl e
      | Inr c' \<Rightarrow>
          Inr ((k, Dict (fold (\<lambda>(kk, vv) d. setitem kk vv d) v [(''id'', Leaf (Str k))])) # c'))"

text \<open>
  Lines 131 to 134, run when the global \<^verbatim>\<open>_cache\<close> is \<^verbatim>\<open>None\<close>. The global is assigned twice:
  the raw geometry data first, the items with their ids second, so an exception in line 134
  leaves the raw data in it. The result is the value of \<^verbatim>\<open>_cache\<close> to go on with, paired
  with the world and the global after the step.
\<close>

definition init_cache :: "'i env \<Rightarrow> world \<Rightarrow> (exn + cache) \<times> world \<times> cache option" where
  "init_cache E w =
     (case geometry_data E False w of
        (Inl e, w') \<Rightarrow> (Inl e, w', None)
      | (Inr g, w') \<Rightarrow>
          (let raw = map (\<lambda>(k, v). (k, map_node Arr v)) g
           in case add_ids raw of
                Inl e \<Rightarrow> (Inl e, w', Some raw)
              | Inr c \<Rightarrow> (Inr c, w', Some c)))"

text \<open>
  Lines 136 to 145. \<^verbatim>\<open>int(.9*len(_cache))\<close> is computed in floating point; for every length
  a dictionary can have it is the integer \<open>9 * N div 10\<close>, which the model uses.
  \<^verbatim>\<open>sorted(_cache)\<close> sorts the keys as strings.
\<close>

definition select_order :: "'i env \<Rightarrow> cache \<Rightarrow> string \<Rightarrow> exn + string list" where
  "select_order E c split =
     (let cutoff = 9 * length c div 10;
          order = permutation E (sort (map fst c))
      in if split = ''training'' then Inr (take cutoff order)
         else if split = ''test'' then Inr (drop cutoff order)
         else if split = ''all'' then Inr order
         else Inl ValueError)"

text \<open>
  Line 147, the list comprehension over \<^verbatim>\<open>range(n_designs)\<close>: \<^verbatim>\<open>i % len(order)\<close> raises
  \<^verbatim>\<open>ZeroDivisionError\<close> when the order is empty, and \<^verbatim>\<open>_cache[...]\<close> raises \<^verbatim>\<open>KeyError\<close> for
  an id the cache does not have.
\<close>

fun pick :: "cache \<Rightarrow> string list \<Rightarrow> nat list \<Rightarrow> exn + cell node list" where
  "pick c order [] = Inr []"
| "pick c order (i # rest) =
     (if length order = 0 then Inl ZeroDivisionError
      else case map_of c (order ! (i mod length order)) of
             None \<Rightarrow> Inl KeyError
           | Some item \<Rightarrow>
               (case pick c order rest of
                  Inl e \<Rightarrow> Inl e
                | Inr items \<Rightarrow> Inr (item # items)))"

text \<open>
  The ids line 147 looks up, in order: \<^verbatim>\<open>order[i % len(order)]\<close> for \<^verbatim>\<open>i\<close> in
  \<^verbatim>\<open>range(n_designs)\<close>.
\<close>

definition cyclic_ids :: "string list \<Rightarrow> nat \<Rightarrow> string list" where
  "cyclic_ids order n = map (\<lambda>i. order ! (i mod length order)) [0..<n]"

text \<open>
  \<^verbatim>\<open>sample\<close> (lines 129 to 147). The state is the world and the global \<^verbatim>\<open>_cache\<close>.
\<close>

definition sample ::
  "'i env \<Rightarrow> nat \<Rightarrow> string \<Rightarrow> world \<times> cache option
   \<Rightarrow> (exn + cell node list) \<times> world \<times> cache option" where
  "sample E n_designs split st =
     (case (case snd st of
              None \<Rightarrow> init_cache E (fst st)
            | Some c \<Rightarrow> (Inr c, fst st, Some c)) of
        (Inl e, st') \<Rightarrow> (Inl e, st')
      | (Inr c, st') \<Rightarrow>
          (case select_order E c split of
             Inl e \<Rightarrow> (Inl e, st')
           | Inr order \<Rightarrow> (pick c order [0..<n_designs], st')))"

subsection \<open>Example inputs\<close>

text \<open>
  The bytes of an ASCII text; an array of two by two bytes and a blob that holds it; an
  environment whose archive has the one entry \<^verbatim>\<open>7/walls.npy\<close>, whose table of SVG files has two
  rows of which the transform fails on the second, whose network is down and whose permutation
  reverses its argument; a world in which both artifacts are on disk, and one with nothing on
  disk.
\<close>

definition ascii :: "string \<Rightarrow> bytes" where
  "ascii s = map (\<lambda>c. of_nat (of_char c)) s"

definition example_array :: nparray where
  "example_array = \<lparr>descr = PyStr ''|u1'', shape = [2, 2], buf = [1, 2, 3, 4]\<rparr>"

definition example_blob :: bytes where
  "example_blob =
     [0x93] @ ascii ''NUMPY'' @ [1, 0] @ [33, 0] @ ascii ''{'descr': '|u1', 'shape': (2, 2)}''
       @ [1, 2, 3, 4]"

definition example_env :: "string env" where
  "example_env =
     \<lparr>net = (\<lambda>url. Inl (Exception ''ConnectionError'')),
      gzip_compress = (\<lambda>bs. bs),
      gzip_decompress = Inr,
      svgs_json = Inr,
      read_json = (\<lambda>bs. Inr [(''7'', ''<svg>rooms</svg>''), (''8'', ''<svg/>'')]),
      str_of = (\<lambda>i. i),
      geometry = (\<lambda>svg. if svg = ''<svg/>'' then Inl (Exception ''ValueError'')
                        else Inr (Dict [(''walls'', Leaf example_array)])),
      savez = (\<lambda>flat. Inr (ascii ''PK'')),
      unzip = (\<lambda>bs. if bs = ascii ''PK'' then Inr [(''7/walls.npy'', example_blob)]
                      else Inl (Exception ''BadZipFile'')),
      literal_eval = (\<lambda>bs.
        if bs = ascii ''{'descr': '|u1', 'shape': (2, 2)}''
          then Inr (PyDict [(PyStr ''descr'', PyStr ''|u1''),
                            (PyStr ''shape'', PyTuple [PyInt 2, PyInt 2])])
        else if bs = ascii ''{'shape': (2, 2)}''
          then Inr (PyDict [(PyStr ''shape'', PyTuple [PyInt 2, PyInt 2])])
        else if bs = ascii ''{'descr': '|u1', 'shape': (-1, 2)}''
          then Inr (PyDict [(PyStr ''descr'', PyStr ''|u1''),
                            (PyStr ''shape'', PyTuple [PyInt (- 1), PyInt 2])])
        else Inl (Exception ''SyntaxError'')),
      itemsize = (\<lambda>d. if d = PyStr ''|u1'' then Some 1
                       else if d = PyStr ''<f8'' then Some 8 else None),
      permutation = rev\<rparr>"

definition example_world :: world where
  "example_world =
     \<lparr>files = [''.cache/cubicasa-svgs.json.gz'' \<mapsto> ascii ''{}'',
               ''.cache/cubicasa-geometry.npz.gz'' \<mapsto> ascii ''PK''],
      dirs = {''.cache''},
      requested = [],
      logged = []\<rparr>"

text \<open>A cache of two items with their ids.\<close>

definition empty_world :: world where
  "empty_world = \<lparr>files = Map.empty, dirs = {}, requested = [], logged = []\<rparr>"

definition example_cache :: cache where
  "example_cache =
     [(''7'', Dict [(''id'', Leaf (Str ''7'')), (''walls'', Leaf (Arr example_array))]),
      (''8'', Dict [(''id'', Leaf (Str ''8'')), (''walls'', Leaf (Arr example_array))])]"

text \<open>
  For the statements about the derivation: the entry the pool holds for a row, and the log
  records of the rows on which the transform raises.
\<close>

definition outcome :: "'i env \<Rightarrow> 'i \<times> string \<Rightarrow> string \<times> nparray node option" where
  "outcome E row = (str_of E (fst row), case geometry E (snd row) of Inr g \<Rightarrow> Some g | Inl e \<Rightarrow> None)"

definition failure_records :: "'i env \<Rightarrow> ('i \<times> string) list \<Rightarrow> string list" where
  "failure_records E rows =
     map (\<lambda>row. ''Geometry generation failed on on #'' @ str_of E (fst row))
       (filter (\<lambda>row. isl (geometry E (snd row))) rows)"

section \<open>Proofs\<close>

subsection \<open>Dictionaries and splitting\<close>

lemma str_split_ne: "str_split sep s \<noteq> []"
  by (induction s) auto

lemma str_split_plain: "sep \<notin> set k \<Longrightarrow> str_split sep k = [k]"
  by (induction k) auto

lemma str_split_join: "sep \<notin> set k \<Longrightarrow> str_split sep (k @ sep # s) = k # str_split sep s"
  by (induction k) auto

lemma hd_split_join: "sep \<notin> set k \<Longrightarrow> hd (str_split sep (k @ sep # s)) = k"
  by (simp add: str_split_join)

lemma setitem_fresh: "k \<notin> fst ` set d \<Longrightarrow> setitem k v d = d @ [(k, v)]"
  by (induction d) auto

lemma setitem_append_hit: "k \<notin> fst ` set d \<Longrightarrow> setitem k v (d @ (k, w) # r) = d @ (k, v) # r"
  by (induction d) auto

lemma map_of_append_hit: "k \<notin> fst ` set d \<Longrightarrow> map_of (d @ (k, w) # r) k = Some w"
  by (induction d) auto

lemma map_of_fresh: "k \<notin> fst ` set d \<Longrightarrow> map_of d k = None"
  by (simp add: map_of_eq_None_iff)

lemma flat_entries_heads:
  "roundtrippable tree \<Longrightarrow> (k, v) \<in> set (flat_entries tree) \<Longrightarrow>
   hd (str_split CHR ''/'' k) \<in> fst ` set tree"
proof (induction tree arbitrary: k v rule: roundtrippable.induct)
  case 1
  then show ?case by simp
next
  case (2 k' x rest)
  then show ?case by (auto simp: str_split_plain)
next
  case (3 k' sub rest)
  then show ?case by (auto simp: str_split_join)
qed

lemma flat_entries_distinct:
  "roundtrippable tree \<Longrightarrow> distinct (map fst (flat_entries tree))"
proof (induction tree rule: roundtrippable.induct)
  case 1
  then show ?case by simp
next
  case (2 k x rest)
  have "k \<notin> fst ` set (flat_entries rest)"
  proof
    assume "k \<in> fst ` set (flat_entries rest)"
    then obtain v where "(k, v) \<in> set (flat_entries rest)" by auto
    with 2 have "hd (str_split CHR ''/'' k) \<in> fst ` set rest"
      using flat_entries_heads by fastforce
    with 2 show False by (simp add: str_split_plain)
  qed
  with 2 show ?case by simp
next
  case (3 k sub rest)
  have e: "map fst (map (\<lambda>(kk, vv). (k @ ''/'' @ kk, vv)) (flat_entries sub))
          = map ((@) (k @ ''/'')) (map fst (flat_entries sub))"
    by (induction "flat_entries sub") auto
  have d1: "distinct (map fst (map (\<lambda>(kk, vv). (k @ ''/'' @ kk, vv)) (flat_entries sub)))"
    unfolding e using 3 by (simp add: distinct_map inj_on_def)
  have d2: "fst ` set (map (\<lambda>(kk, vv). (k @ ''/'' @ kk, vv)) (flat_entries sub))
            \<inter> fst ` set (flat_entries rest) = {}"
  proof (rule ccontr)
    assume "\<not> ?thesis"
    then obtain kk vv w where a: "(kk, vv) \<in> set (flat_entries sub)"
      and b: "(k @ ''/'' @ kk, w) \<in> set (flat_entries rest)" by force
    from b 3 have "hd (str_split CHR ''/'' (k @ ''/'' @ kk)) \<in> fst ` set rest"
      using flat_entries_heads by fastforce
    with 3 show False by (simp add: str_split_join)
  qed
  from 3 d1 d2 show ?case by (simp add: image_image)
qed

lemma fold_setitem_prefixed:
  "distinct (map fst (map (\<lambda>(kk, vv). (k @ ''/'' @ kk, vv)) es)) \<Longrightarrow>
   fst ` set (map (\<lambda>(kk, vv). (k @ ''/'' @ kk, vv)) es) \<inter> fst ` set acc = {} \<Longrightarrow>
   fold (\<lambda>(kk, vv) a. setitem (k @ ''/'' @ kk) vv a) es acc
     = acc @ map (\<lambda>(kk, vv). (k @ ''/'' @ kk, vv)) es"
proof (induction es arbitrary: acc)
  case Nil
  then show ?case by simp
next
  case (Cons e es)
  obtain kk vv where e: "e = (kk, vv)" by (cases e)
  from Cons.prems e have fresh: "k @ ''/'' @ kk \<notin> fst ` set acc" by auto
  have step: "setitem (k @ ''/'' @ kk) vv acc = acc @ [(k @ ''/'' @ kk, vv)]"
    using fresh by (rule setitem_fresh)
  have "fold (\<lambda>(kk, vv) a. setitem (k @ ''/'' @ kk) vv a) es (acc @ [(k @ ''/'' @ kk, vv)])
        = (acc @ [(k @ ''/'' @ kk, vv)]) @ map (\<lambda>(kk, vv). (k @ ''/'' @ kk, vv)) es"
  proof (rule Cons.IH)
    show "distinct (map fst (map (\<lambda>(kk, vv). (k @ ''/'' @ kk, vv)) es))"
      using Cons.prems(1) by simp
    show "fst ` set (map (\<lambda>(kk, vv). (k @ ''/'' @ kk, vv)) es)
          \<inter> fst ` set (acc @ [(k @ ''/'' @ kk, vv)]) = {}"
      using Cons.prems e by (auto simp: image_image)
  qed
  with step e show ?case by simp
qed

lemma flatten_into_eq:
  "roundtrippable tree \<Longrightarrow> fst ` set (flat_entries tree) \<inter> fst ` set acc = {} \<Longrightarrow>
   flatten_into tree acc = acc @ flat_entries tree"
proof (induction tree arbitrary: acc rule: roundtrippable.induct)
  case 1
  then show ?case by simp
next
  case (2 k x rest)
  from "2.prems"(2) have fresh: "k \<notin> fst ` set acc" by auto
  have dist: "distinct (map fst (flat_entries ((k, Leaf x) # rest)))"
    using "2.prems"(1) by (rule flat_entries_distinct)
  have "flatten_into rest (acc @ [(k, x)]) = (acc @ [(k, x)]) @ flat_entries rest"
  proof (rule "2.IH")
    show "roundtrippable rest" using "2.prems"(1) by simp
    show "fst ` set (flat_entries rest) \<inter> fst ` set (acc @ [(k, x)]) = {}"
      using "2.prems"(2) dist by auto
  qed
  then show ?case using fresh by (simp add: setitem_fresh)
next
  case (3 k sub rest)
  let ?P = "\<lambda>(kk, vv). (k @ ''/'' @ kk, vv)"
  have dist: "distinct (map fst (flat_entries ((k, Dict sub) # rest)))"
    using "3.prems"(1) by (rule flat_entries_distinct)
  have sub: "flatten_into sub [] = flat_entries sub"
    using "3.IH"(1)[of "[]"] "3.prems"(1) by simp
  have inner: "fold (\<lambda>(kk, vv) a. setitem (k @ ''/'' @ kk) vv a) (flat_entries sub) acc
               = acc @ map ?P (flat_entries sub)"
  proof (rule fold_setitem_prefixed)
    show "distinct (map fst (map ?P (flat_entries sub)))" using dist by simp
    show "fst ` set (map ?P (flat_entries sub)) \<inter> fst ` set acc = {}"
      using "3.prems"(2) by auto
  qed
  have "flatten_into rest (acc @ map ?P (flat_entries sub))
        = (acc @ map ?P (flat_entries sub)) @ flat_entries rest"
  proof (rule "3.IH"(2))
    show "roundtrippable rest" using "3.prems"(1) by simp
    from dist have "set (map fst (map ?P (flat_entries sub)))
                    \<inter> set (map fst (flat_entries rest)) = {}"
      by (simp only: flat_entries.simps map_append distinct_append)
    then have a: "fst ` set (map ?P (flat_entries sub)) \<inter> fst ` set (flat_entries rest) = {}"
      by (simp only: set_map)
    from "3.prems"(2) have b: "fst ` set (flat_entries rest) \<inter> fst ` set acc = {}"
      by (simp only: flat_entries.simps set_append image_Un) blast
    from a b show "fst ` set (flat_entries rest)
                   \<inter> fst ` set (acc @ map ?P (flat_entries sub)) = {}"
      by (simp only: set_append image_Un) blast
  qed
  then show ?case using sub inner by simp
qed

lemma flatten_eq: "roundtrippable tree \<Longrightarrow> flatten tree = flat_entries tree"
  by (simp add: flatten_def flatten_into_eq)

lemma flat_entries_nonempty: "roundtrippable tree \<Longrightarrow> tree \<noteq> [] \<Longrightarrow> flat_entries tree \<noteq> []"
  by (induction tree rule: roundtrippable.induct) auto

lemma walk_hit:
  "map_of T k = Some (Dict s) \<Longrightarrow> parts \<noteq> [] \<Longrightarrow>
   walk (k # parts) v T =
     (case walk parts v s of Inl e \<Rightarrow> Inl e | Inr s' \<Rightarrow> Inr (setitem k (Dict s') T))"
  by (cases parts) (simp_all add: setdefault_def)

lemma walk_miss:
  "map_of T k = None \<Longrightarrow> parts \<noteq> [] \<Longrightarrow>
   walk (k # parts) v T =
     (case walk parts v [] of Inl e \<Rightarrow> Inl e
      | Inr s' \<Rightarrow> Inr (setitem k (Dict s') (setitem k (Dict []) T)))"
  by (cases parts) (simp_all add: setdefault_def)

lemma unflatten_loop_append:
  "unflatten_loop (a @ b) T =
     (case unflatten_loop a T of Inl e \<Rightarrow> Inl e | Inr T' \<Rightarrow> unflatten_loop b T')"
  by (induction a arbitrary: T) (auto split: sum.splits)

lemma unflatten_loop_prefixed:
  "CHR ''/'' \<notin> set k \<Longrightarrow> k \<notin> fst ` set A \<Longrightarrow> unflatten_loop es s = Inr s' \<Longrightarrow>
   unflatten_loop (map (\<lambda>(kk, vv). (k @ ''/'' @ kk, vv)) es) (A @ (k, Dict s) # B)
     = Inr (A @ (k, Dict s') # B)"
proof (induction es arbitrary: s)
  case Nil
  then show ?case by simp
next
  case (Cons e es)
  obtain kk vv where e: "e = (kk, vv)" by (cases e)
  from Cons.prems(3) e obtain s1 where
    w: "walk (str_split CHR ''/'' kk) vv s = Inr s1" and r: "unflatten_loop es s1 = Inr s'"
    by (auto split: sum.splits)
  have sp: "str_split CHR ''/'' (k @ ''/'' @ kk) = k # str_split CHR ''/'' kk"
    using Cons.prems(1) by (simp add: str_split_join)
  have m: "map_of (A @ (k, Dict s) # B) k = Some (Dict s)"
    using Cons.prems(2) by (rule map_of_append_hit)
  have "walk (k # str_split CHR ''/'' kk) vv (A @ (k, Dict s) # B)
        = Inr (A @ (k, Dict s1) # B)"
    unfolding walk_hit[OF m str_split_ne] w
    using setitem_append_hit[OF Cons.prems(2)] by simp
  with sp e Cons.IH[OF Cons.prems(1,2) r] show ?case by simp
qed

lemma unflatten_loop_prefixed_fresh:
  assumes "CHR ''/'' \<notin> set k" "k \<notin> fst ` set T" "es \<noteq> []" "unflatten_loop es [] = Inr s'"
  shows "unflatten_loop (map (\<lambda>(kk, vv). (k @ ''/'' @ kk, vv)) es) T = Inr (T @ [(k, Dict s')])"
proof -
  from assms(3) obtain kk vv es' where es: "es = (kk, vv) # es'"
    by (cases es) auto
  from assms(4) es obtain s1 where
    w: "walk (str_split CHR ''/'' kk) vv [] = Inr s1" and r: "unflatten_loop es' s1 = Inr s'"
    by (auto split: sum.splits)
  have sp: "str_split CHR ''/'' (k @ ''/'' @ kk) = k # str_split CHR ''/'' kk"
    using assms(1) by (simp add: str_split_join)
  have "setitem k (Dict s1) (setitem k (Dict []) T) = T @ [(k, Dict s1)]"
    using assms(2) setitem_append_hit[of k T "Dict s1" "Dict []" "[]"]
    by (simp add: setitem_fresh)
  then have first: "walk (k # str_split CHR ''/'' kk) vv T = Inr (T @ [(k, Dict s1)])"
    unfolding walk_miss[OF map_of_fresh[OF assms(2)] str_split_ne] w by simp
  have "unflatten_loop (map (\<lambda>(kk, vv). (k @ ''/'' @ kk, vv)) es') (T @ (k, Dict s1) # [])
        = Inr (T @ (k, Dict s') # [])"
    using assms(1,2) r by (rule unflatten_loop_prefixed)
  with first sp es show ?thesis by simp
qed

lemma unflatten_loop_flat_entries:
  "roundtrippable tree \<Longrightarrow> fst ` set T \<inter> fst ` set tree = {} \<Longrightarrow>
   unflatten_loop (flat_entries tree) T = Inr (T @ tree)"
proof (induction tree arbitrary: T rule: roundtrippable.induct)
  case 1
  then show ?case by simp
next
  case (2 k x rest)
  from "2.prems" have fresh: "k \<notin> fst ` set T" by auto
  have "unflatten_loop (flat_entries rest) (T @ [(k, Leaf x)]) = Inr ((T @ [(k, Leaf x)]) @ rest)"
  proof (rule "2.IH")
    show "roundtrippable rest" using "2.prems"(1) by simp
    show "fst ` set (T @ [(k, Leaf x)]) \<inter> fst ` set rest = {}"
      using "2.prems" by auto
  qed
  with "2.prems"(1) fresh show ?case
    by (simp add: str_split_plain setitem_fresh)
next
  case (3 k sub rest)
  from "3.prems" have fresh: "k \<notin> fst ` set T" by auto
  from "3.prems"(1) have k: "CHR ''/'' \<notin> set k" and ne: "sub \<noteq> []"
    and rs: "roundtrippable sub" and rr: "roundtrippable rest" by simp_all
  have "unflatten_loop (flat_entries sub) [] = Inr ([] @ sub)"
    using rs by (rule "3.IH"(1)) simp
  then have inner: "unflatten_loop (flat_entries sub) [] = Inr sub" by simp
  have a: "unflatten_loop (map (\<lambda>(kk, vv). (k @ ''/'' @ kk, vv)) (flat_entries sub)) T
           = Inr (T @ [(k, Dict sub)])"
    using k fresh flat_entries_nonempty[OF rs ne] inner by (rule unflatten_loop_prefixed_fresh)
  have b: "unflatten_loop (flat_entries rest) (T @ [(k, Dict sub)])
           = Inr ((T @ [(k, Dict sub)]) @ rest)"
  proof (rule "3.IH"(2)[OF rr])
    show "fst ` set (T @ [(k, Dict sub)]) \<inter> fst ` set rest = {}"
      using "3.prems" by auto
  qed
  from a b show ?case by (simp add: unflatten_loop_append)
qed

subsection \<open>KeyTree: the round trip\<close>

text \<open>
  C1 (as amended). For every nested mapping whose keys are free of \<^verbatim>\<open>/\<close> and in which no
  nested mapping is empty, \<^verbatim>\<open>unflatten(flatten(t))\<close> returns \<^verbatim>\<open>t\<close> itself: the same keys in
  the same order with the same values at every level.
\<close>

theorem unflatten_flatten_roundtrip:
  "roundtrippable tree \<Longrightarrow> unflatten (flatten tree) = Inr tree"
  using unflatten_loop_flat_entries[of tree "[]"]
  by (simp add: unflatten_def flatten_eq)

theorem unflatten_flatten_roundtrip_witness:
  "roundtrippable [(''a'', Dict [(''x'', Leaf (1::nat)), (''y'', Dict [(''z'', Leaf 2)])]),
                   (''b'', Leaf 3)]
   \<and> unflatten (flatten [(''a'', Dict [(''x'', Leaf (1::nat)), (''y'', Dict [(''z'', Leaf 2)])]),
                          (''b'', Leaf 3)])
     = Inr [(''a'', Dict [(''x'', Leaf 1), (''y'', Dict [(''z'', Leaf 2)])]), (''b'', Leaf 3)]"
  using unflatten_flatten_roundtrip
    [of "[(''a'', Dict [(''x'', Leaf (1::nat)), (''y'', Dict [(''z'', Leaf 2)])]), (''b'', Leaf 3)]"]
  by simp

text \<open>
  C1 as stated fails on a tree with an empty nested mapping: \<^verbatim>\<open>flatten\<close> has no entry for it,
  so the key is gone after the round trip.
\<close>

theorem unflatten_flatten_empty_dict_counterexample:
  "unflatten (flatten [(''a'', Dict []), (''b'', Leaf (3::nat))]) = Inr [(''b'', Leaf 3)]
   \<and> unflatten (flatten [(''a'', Dict []), (''b'', Leaf (3::nat))])
       \<noteq> Inr [(''a'', Dict []), (''b'', Leaf 3)]"
  by (simp add: unflatten_def flatten_def)

subsection \<open>KeyTree: conflicting paths\<close>











subsection \<open>BinaryArrayCodec\<close>

lemma shape_dims_nats: "shape_dims (PyTuple (map (\<lambda>n. PyInt (int n)) shp)) = Inr (map int shp)"
  by (simp add: list_all_iff comp_def)

lemma prod_list_int: "prod_list (map int shp) = int (prod_list shp)"
  by (induction shp) auto

lemma reshape_dims_nats:
  "reshape_dims (map int shp) n = (if prod_list shp = n then Inr shp else Inl ValueError)"
proof -
  have f1: "filter (\<lambda>d. d < 0) (map int shp) = []" by (induction shp) auto
  have f2: "filter (\<lambda>d. 0 \<le> d) (map int shp) = map int shp" by (induction shp) auto
  have m: "map nat (map int shp) = shp" by (induction shp) auto
  show ?thesis
    unfolding reshape_dims_def Let_def f1 f2 m prod_list_int by simp
qed

lemma frombuffer_ok:
  "itemsize E d = Some sz \<Longrightarrow> 0 < sz \<Longrightarrow>
   frombuffer E data d =
     (if length data mod sz = 0 then Inr \<lparr>descr = d, shape = [length data div sz], buf = data\<rparr>
      else Inl ValueError)"
  by (simp add: frombuffer_def)

lemma reshape_nats:
  "reshape E a (PyTuple (map (\<lambda>n. PyInt (int n)) shp)) =
     (if prod_list shp = prod_list (shape a) then Inr (a\<lparr>shape := shp\<rparr>) else Inl ValueError)"
  by (simp add: reshape_def shape_dims_nats reshape_dims_nats del: shape_dims.simps)

text \<open>
  C2. A blob of the writer's layout is: eight bytes of magic and version, the length \<open>L\<close> of
  the header text at offset 8, one more byte, \<open>L\<close> bytes of header text at offset 10 that
  evaluate to a mapping with the keys \<^verbatim>\<open>descr\<close> and \<^verbatim>\<open>shape\<close>, and the buffer of the
  array. On every such blob \<^verbatim>\<open>fastload\<close> returns the array of that element type, shape and
  buffer: decoding the encoding of an array gives the array back bit for bit.
\<close>

theorem fastload_decodes_layout:
  assumes "length pre = 8" and "length hdr = unat L"
    and "literal_eval E hdr = Inr (PyDict items)"
    and "map_of items (PyStr ''descr'') = Some d"
    and "map_of items (PyStr ''shape'') = Some (PyTuple (map (\<lambda>n. PyInt (int n)) shp))"
    and "itemsize E d = Some sz" and "0 < sz"
    and "length payload = prod_list shp * sz"
  shows "fastload E (pre @ [L, b9] @ hdr @ payload) = Inr \<lparr>descr = d, shape = shp, buf = payload\<rparr>"
proof -
  let ?raw = "pre @ [L, b9] @ hdr @ payload"
  have len: "\<not> length ?raw \<le> 8" using assms(1) by simp
  have l: "?raw ! 8 = L" using assms(1) by (simp add: nth_append)
  have h: "take (unat L) (drop 10 ?raw) = hdr" using assms(1,2) by simp
  have p: "drop (10 + unat L) ?raw = payload" using assms(1,2) by simp
  have fb: "frombuffer E payload d = Inr \<lparr>descr = d, shape = [prod_list shp], buf = payload\<rparr>"
    using assms(6,7,8) by (simp add: frombuffer_ok)
  have rs: "reshape E \<lparr>descr = d, shape = [prod_list shp], buf = payload\<rparr>
              (PyTuple (map (\<lambda>n. PyInt (int n)) shp))
            = Inr \<lparr>descr = d, shape = shp, buf = payload\<rparr>"
    by (simp add: reshape_nats)
  show ?thesis
    unfolding fastload_def Let_def l h p
    using len assms(3,4,5) fb rs by (simp add: getitem_def)
qed


theorem fastload_decodes_layout_witness:
  "fastload example_env
     ([0x93] @ ascii ''NUMPY'' @ [1, 0] @ [33, 0] @ ascii ''{'descr': '|u1', 'shape': (2, 2)}''
        @ [1, 2, 3, 4])
   = Inr \<lparr>descr = PyStr ''|u1'', shape = [2, 2], buf = [1, 2, 3, 4]\<rparr>"
  using fastload_decodes_layout
    [of "[0x93] @ ascii ''NUMPY'' @ [1, 0]" "ascii ''{'descr': '|u1', 'shape': (2, 2)}''" 33
        example_env
        "[(PyStr ''descr'', PyStr ''|u1''), (PyStr ''shape'', PyTuple [PyInt 2, PyInt 2])]"
        "PyStr ''|u1''" "[2, 2]" 1 "[1, 2, 3, 4]" 0]
  by (simp add: example_env_def ascii_def)




subsection \<open>DatasetSampler\<close>

lemma pick_empty_order: "is \<noteq> [] \<Longrightarrow> pick c [] is = Inl ZeroDivisionError"
  by (cases "is") auto


lemma select_order_subset:
  assumes "mset (permutation E (sort (map fst c))) = mset (map fst c)"
    and "select_order E c split = Inr order"
  shows "set order \<subseteq> fst ` set c"
proof -
  from assms(1) have s: "set (permutation E (sort (map fst c))) = fst ` set c"
    by (metis list.set_map mset_eq_setD)
  from assms(2) have "set order \<subseteq> set (permutation E (sort (map fst c)))"
    by (auto simp: select_order_def Let_def split: if_splits dest: in_set_takeD in_set_dropD)
  with s show ?thesis by simp
qed

lemma sort_strings: "sort [''7'', ''8''] = [''7'', ''8'']"
  by code_simp

lemma select_order_same_ids:
  assumes "distinct (map fst c)" and "distinct (map fst c')"
    and "set (map fst c') = set (map fst c)"
  shows "select_order E c' split = select_order E c split"
proof -
  have "sort (map fst c') = sort (map fst c)"
    using assms by (intro sorted_distinct_set_unique) simp_all
  moreover have "length c' = length c"
    using assms by (metis distinct_card length_map)
  ultimately show ?thesis by (simp add: select_order_def)
qed

lemma geometry_data_example:
  "geometry_data example_env False example_world
     = (Inr [(''7'', Dict [(''walls'', Leaf example_array)])], example_world)"
  by (simp add: geometry_data_def example_env_def example_world_def read_bytes_def
      fastload_def example_blob_def ascii_def getitem_def frombuffer_def reshape_def
      reshape_dims_def unflatten_def setdefault_def example_array_def)

lemma pick_items:
  "set order \<subseteq> fst ` set c \<Longrightarrow> order \<noteq> [] \<or> is = [] \<Longrightarrow>
   \<exists>items. pick c order is = Inr items
     \<and> list_all2 (\<lambda>k item. map_of c k = Some item)
          (map (\<lambda>i. order ! (i mod length order)) is) items"
proof (induction "is")
  case Nil
  then show ?case by simp
next
  case (Cons i "is")
  from Cons.prems(2) have ne: "order \<noteq> []" by simp
  with Cons obtain items where r: "pick c order is = Inr items"
    and a: "list_all2 (\<lambda>k item. map_of c k = Some item)
              (map (\<lambda>i. order ! (i mod length order)) is) items"
    by blast
  from Cons.prems(1) ne have "order ! (i mod length order) \<in> fst ` set c"
    by (meson length_greater_0_conv mod_less_divisor nth_mem subsetD)
  then obtain item where it: "map_of c (order ! (i mod length order)) = Some item"
    by (metis domIff dom_map_of_conv_image_fst not_None_eq)
  have "pick c order (i # is) = Inr (item # items)"
    using ne it r by simp
  with it a show ?case by simp
qed

lemma sample_materialized:
  assumes "mset (permutation E (sort (map fst c))) = mset (map fst c)"
    and "select_order E c split = Inr order"
    and "order \<noteq> [] \<or> n = 0"
  shows "\<exists>items. sample E n split (w, Some c) = (Inr items, w, Some c)
           \<and> list_all2 (\<lambda>k item. map_of c k = Some item) (cyclic_ids order n) items"
proof -
  from assms(3) have "order \<noteq> [] \<or> [0..<n] = []" by simp
  from pick_items[OF select_order_subset[OF assms(1,2)] this]
  show ?thesis using assms(2) by (simp add: sample_def cyclic_ids_def)
qed

lemma cyclic_ids_subset: "order \<noteq> [] \<Longrightarrow> set (cyclic_ids order n) \<subseteq> set order"
  by (auto simp: cyclic_ids_def)

lemma cyclic_ids_empty: "set (cyclic_ids order 0) = {}"
  by (simp add: cyclic_ids_def)

lemma cyclic_ids_whole: "cyclic_ids order (length order) = order"
  by (auto simp: cyclic_ids_def intro!: nth_equalityI)

lemma cyclic_ids_take: "n \<le> length order \<Longrightarrow> cyclic_ids order n = take n order"
  by (auto simp: cyclic_ids_def intro!: nth_equalityI)

lemma sample_succeeds_order:
  assumes "sample E n split (w, Some c) = (Inr items, w, Some c)"
  shows "\<exists>order. select_order E c split = Inr order \<and> (order \<noteq> [] \<or> n = 0)"
proof (cases "select_order E c split")
  case (Inl e)
  with assms show ?thesis by (simp add: sample_def)
next
  case (Inr order)
  have "order \<noteq> [] \<or> n = 0"
  proof (rule ccontr)
    assume "\<not> (order \<noteq> [] \<or> n = 0)"
    then have "order = []" "[0..<n] \<noteq> []" by simp_all
    with assms Inr show False by (simp add: sample_def pick_empty_order)
  qed
  with Inr show ?thesis by simp
qed

text \<open>
  C3. On a materialized cache of \<open>N\<close> items with pairwise different ids, with a permutation
  routine that returns a rearrangement of its argument, write \<open>p\<close> for the permutation of the
  sorted ids and \<open>cutoff\<close> for \<open>9 * N div 10\<close>. Then \<^verbatim>\<open>sample(n, 'training')\<close> returns the items of
  the ids of the first \<open>cutoff\<close> entries of \<open>p\<close>, taken cyclically, \<^verbatim>\<open>sample(n, 'test')\<close> those of
  the remaining entries and \<^verbatim>\<open>sample(n, 'all')\<close> those of \<open>p\<close>; the ids of training and test
  are disjoint; \<open>p\<close> has every id exactly once and \<^verbatim>\<open>sample(N, 'all')\<close> returns the items of
  \<open>p\<close> in its order; and on every cache with the same set of ids a call that succeeds here
  succeeds there with the items of the same ids in the same order.
\<close>

theorem sample_split_selection:
  fixes E :: "'i env" and c :: cache
  defines "p \<equiv> permutation E (sort (map fst c))"
    and "cutoff \<equiv> 9 * length c div 10"
  assumes "mset p = mset (map fst c)" and "distinct (map fst c)"
  shows "(take cutoff p \<noteq> [] \<or> n = 0 \<longrightarrow>
            (\<exists>items. sample E n ''training'' (w, Some c) = (Inr items, w, Some c)
               \<and> list_all2 (\<lambda>k item. map_of c k = Some item) (cyclic_ids (take cutoff p) n) items
               \<and> set (cyclic_ids (take cutoff p) n) \<subseteq> set (take cutoff p)))
       \<and> (drop cutoff p \<noteq> [] \<or> n = 0 \<longrightarrow>
            (\<exists>items. sample E n ''test'' (w, Some c) = (Inr items, w, Some c)
               \<and> list_all2 (\<lambda>k item. map_of c k = Some item) (cyclic_ids (drop cutoff p) n) items
               \<and> set (cyclic_ids (drop cutoff p) n) \<subseteq> set (drop cutoff p)))
       \<and> (p \<noteq> [] \<or> n = 0 \<longrightarrow>
            (\<exists>items. sample E n ''all'' (w, Some c) = (Inr items, w, Some c)
               \<and> list_all2 (\<lambda>k item. map_of c k = Some item) (cyclic_ids p n) items))
       \<and> set (take cutoff p) \<inter> set (drop cutoff p) = {}
       \<and> distinct p \<and> set p = fst ` set c
       \<and> (\<exists>items. sample E (length c) ''all'' (w, Some c) = (Inr items, w, Some c)
             \<and> list_all2 (\<lambda>k item. map_of c k = Some item) p items)
       \<and> (\<forall>c' w' items.
             distinct (map fst c') \<and> set (map fst c') = set (map fst c)
             \<and> sample E n split (w, Some c) = (Inr items, w, Some c)
             \<longrightarrow> (\<exists>items' ids.
                    sample E n split (w', Some c') = (Inr items', w', Some c')
                    \<and> list_all2 (\<lambda>k item. map_of c k = Some item) ids items
                    \<and> list_all2 (\<lambda>k item. map_of c' k = Some item) ids items'))"
proof -
  have perm: "mset (permutation E (sort (map fst c))) = mset (map fst c)"
    using assms(3) by (simp add: p_def)
  have dp: "distinct p"
    using assms(3,4) by (metis mset_eq_imp_distinct_iff)
  have sp: "set p = fst ` set c"
    using assms(3) by (metis list.set_map mset_eq_setD)
  have lp: "length p = length c"
    using assms(3) by (metis length_map size_mset)
  have disj: "set (take cutoff p) \<inter> set (drop cutoff p) = {}"
    using dp by (metis append_take_drop_id distinct_append)
  have tr: "select_order E c ''training'' = Inr (take cutoff p)"
    by (simp add: select_order_def p_def cutoff_def)
  have te: "select_order E c ''test'' = Inr (drop cutoff p)"
    by (simp add: select_order_def p_def cutoff_def)
  have al: "select_order E c ''all'' = Inr p"
    by (simp add: select_order_def p_def)
  have sub: "\<And>order. order \<noteq> [] \<or> n = 0 \<Longrightarrow> set (cyclic_ids order n) \<subseteq> set order"
    by (auto simp: cyclic_ids_def)
  have c1: "take cutoff p \<noteq> [] \<or> n = 0 \<longrightarrow>
            (\<exists>items. sample E n ''training'' (w, Some c) = (Inr items, w, Some c)
               \<and> list_all2 (\<lambda>k item. map_of c k = Some item) (cyclic_ids (take cutoff p) n) items
               \<and> set (cyclic_ids (take cutoff p) n) \<subseteq> set (take cutoff p))"
  proof
    assume a: "take cutoff p \<noteq> [] \<or> n = 0"
    from sample_materialized[OF perm tr a, of w] obtain items where
      "sample E n ''training'' (w, Some c) = (Inr items, w, Some c)"
      "list_all2 (\<lambda>k item. map_of c k = Some item) (cyclic_ids (take cutoff p) n) items"
      by blast
    with sub[OF a] show "\<exists>items. sample E n ''training'' (w, Some c) = (Inr items, w, Some c)
               \<and> list_all2 (\<lambda>k item. map_of c k = Some item) (cyclic_ids (take cutoff p) n) items
               \<and> set (cyclic_ids (take cutoff p) n) \<subseteq> set (take cutoff p)"
      by (intro exI[of _ items]) simp
  qed
  have c2: "drop cutoff p \<noteq> [] \<or> n = 0 \<longrightarrow>
            (\<exists>items. sample E n ''test'' (w, Some c) = (Inr items, w, Some c)
               \<and> list_all2 (\<lambda>k item. map_of c k = Some item) (cyclic_ids (drop cutoff p) n) items
               \<and> set (cyclic_ids (drop cutoff p) n) \<subseteq> set (drop cutoff p))"
  proof
    assume a: "drop cutoff p \<noteq> [] \<or> n = 0"
    from sample_materialized[OF perm te a, of w] obtain items where
      "sample E n ''test'' (w, Some c) = (Inr items, w, Some c)"
      "list_all2 (\<lambda>k item. map_of c k = Some item) (cyclic_ids (drop cutoff p) n) items"
      by blast
    with sub[OF a] show "\<exists>items. sample E n ''test'' (w, Some c) = (Inr items, w, Some c)
               \<and> list_all2 (\<lambda>k item. map_of c k = Some item) (cyclic_ids (drop cutoff p) n) items
               \<and> set (cyclic_ids (drop cutoff p) n) \<subseteq> set (drop cutoff p)"
      by (intro exI[of _ items]) simp
  qed
  have c3: "p \<noteq> [] \<or> n = 0 \<longrightarrow>
            (\<exists>items. sample E n ''all'' (w, Some c) = (Inr items, w, Some c)
               \<and> list_all2 (\<lambda>k item. map_of c k = Some item) (cyclic_ids p n) items)"
  proof
    assume a: "p \<noteq> [] \<or> n = 0"
    show "\<exists>items. sample E n ''all'' (w, Some c) = (Inr items, w, Some c)
               \<and> list_all2 (\<lambda>k item. map_of c k = Some item) (cyclic_ids p n) items"
      by (rule sample_materialized[OF perm al a])
  qed
  have c4: "\<exists>items. sample E (length c) ''all'' (w, Some c) = (Inr items, w, Some c)
             \<and> list_all2 (\<lambda>k item. map_of c k = Some item) p items"
  proof -
    from lp have "p \<noteq> [] \<or> length c = 0" by auto
    from sample_materialized[OF perm al this, of w] cyclic_ids_whole[of p] lp
    show ?thesis by simp
  qed
  have c5: "\<forall>c' w' items.
             distinct (map fst c') \<and> set (map fst c') = set (map fst c)
             \<and> sample E n split (w, Some c) = (Inr items, w, Some c)
             \<longrightarrow> (\<exists>items' ids.
                    sample E n split (w', Some c') = (Inr items', w', Some c')
                    \<and> list_all2 (\<lambda>k item. map_of c k = Some item) ids items
                    \<and> list_all2 (\<lambda>k item. map_of c' k = Some item) ids items')"
  proof (intro allI impI, elim conjE)
    fix c' :: cache and w' items
    assume d': "distinct (map fst c')" and s': "set (map fst c') = set (map fst c)"
      and ok: "sample E n split (w, Some c) = (Inr items, w, Some c)"
    from sample_succeeds_order[OF ok] obtain order where
      so: "select_order E c split = Inr order" and ne: "order \<noteq> [] \<or> n = 0" by blast
    from sample_materialized[OF perm so ne, of w] obtain items0 where
      "sample E n split (w, Some c) = (Inr items0, w, Some c)"
      and i0: "list_all2 (\<lambda>k item. map_of c k = Some item) (cyclic_ids order n) items0"
      by blast
    with ok have "items0 = items" by simp
    with i0 have i1: "list_all2 (\<lambda>k item. map_of c k = Some item) (cyclic_ids order n) items"
      by simp
    have so': "select_order E c' split = Inr order"
      unfolding select_order_same_ids[OF assms(4) d' s', of E split] by (rule so)
    have srt: "sort (map fst c') = sort (map fst c)"
      using assms(4) d' s' by (intro sorted_distinct_set_unique) simp_all
    have "mset (map fst c') = mset (map fst c)"
      using s' unfolding set_eq_iff_mset_eq_distinct[OF d' assms(4)] .
    with perm srt have perm': "mset (permutation E (sort (map fst c'))) = mset (map fst c')"
      by simp
    from sample_materialized[OF perm' so' ne, of w'] obtain items' where
      "sample E n split (w', Some c') = (Inr items', w', Some c')"
      "list_all2 (\<lambda>k item. map_of c' k = Some item) (cyclic_ids order n) items'"
      by blast
    with i1 show "\<exists>items' ids.
            sample E n split (w', Some c') = (Inr items', w', Some c')
            \<and> list_all2 (\<lambda>k item. map_of c k = Some item) ids items
            \<and> list_all2 (\<lambda>k item. map_of c' k = Some item) ids items'"
      by (intro exI[of _ items'] exI[of _ "cyclic_ids order n"]) simp
  qed
  show ?thesis by (intro conjI) (fact c1 c2 c3 disj dp sp c4 c5)+
qed


theorem sample_split_selection_witness:
  "sample example_env 1 ''training'' (example_world, Some example_cache)
     = (Inr [Dict [(''id'', Leaf (Str ''8'')), (''walls'', Leaf (Arr example_array))]],
        example_world, Some example_cache)
   \<and> sample example_env 1 ''test'' (example_world, Some example_cache)
     = (Inr [Dict [(''id'', Leaf (Str ''7'')), (''walls'', Leaf (Arr example_array))]],
        example_world, Some example_cache)"
proof -
  have h1: "mset (permutation example_env (sort (map fst example_cache)))
            = mset (map fst example_cache)"
    by (simp add: example_env_def)
  have h2: "distinct (map fst example_cache)"
    by (simp add: example_cache_def)
  have p: "permutation example_env (sort (map fst example_cache)) = [''8'', ''7'']"
    by (simp add: example_env_def example_cache_def sort_strings del: sort_key_simps)
  have l: "9 * length example_cache div 10 = 1"
    by (simp add: example_cache_def)
  have m: "map_of example_cache ''8''
             = Some (Dict [(''id'', Leaf (Str ''8'')), (''walls'', Leaf (Arr example_array))])"
    "map_of example_cache ''7''
             = Some (Dict [(''id'', Leaf (Str ''7'')), (''walls'', Leaf (Arr example_array))])"
    by (simp_all add: example_cache_def)
  from sample_split_selection[OF h1 h2, of 1 example_world "''all''"] show ?thesis
    unfolding p l by (auto simp: cyclic_ids_def m list_all2_Cons1)
qed



lemma geometry_data_empty_world:
  "geometry_data example_env False empty_world
     = (Inl (Exception ''ConnectionError''),
        \<lparr>files = Map.empty, dirs = {''.cache''}, requested = [''''],
         logged = [''Downloading '']\<rparr>)"
  by (simp add: geometry_data_def geometry_data_fill_def empty_world_def download_def
      log_info_def mkdir_def example_env_def)

text \<open>
  C9 (as amended). For every count and every split other than \<^verbatim>\<open>training\<close>, \<^verbatim>\<open>test\<close> and
  \<^verbatim>\<open>all\<close>: on a cache that is already materialized \<^verbatim>\<open>sample\<close> raises \<^verbatim>\<open>ValueError\<close> and
  leaves the world and the cache as they were. On the first call of the process the cache is
  materialized before the split is looked at: when that succeeds, \<^verbatim>\<open>sample\<close> raises
  \<^verbatim>\<open>ValueError\<close> and leaves the cache materialized; when \<^verbatim>\<open>geometry_data\<close> raises, \<^verbatim>\<open>sample\<close>
  raises that exception and the cache stays \<^verbatim>\<open>None\<close>; when adding the ids raises, \<^verbatim>\<open>sample\<close>
  raises that exception and the cache holds the data without ids.
\<close>

theorem sample_bad_split:
  assumes "split \<noteq> ''training''" and "split \<noteq> ''test''" and "split \<noteq> ''all''"
  shows "sample E n split (w, Some c) = (Inl ValueError, w, Some c)
       \<and> (geometry_data E False w = (Inl e, w') \<longrightarrow>
            sample E n split (w, None) = (Inl e, w', None))
       \<and> (geometry_data E False w = (Inr g, w')
            \<and> add_ids (map (\<lambda>(k, v). (k, map_node Arr v)) g) = Inl e \<longrightarrow>
            sample E n split (w, None)
              = (Inl e, w', Some (map (\<lambda>(k, v). (k, map_node Arr v)) g)))
       \<and> (geometry_data E False w = (Inr g, w')
            \<and> add_ids (map (\<lambda>(k, v). (k, map_node Arr v)) g) = Inr c' \<longrightarrow>
            sample E n split (w, None) = (Inl ValueError, w', Some c'))"
proof -
  from assms have so: "\<And>c. select_order E c split = Inl ValueError"
    by (simp add: select_order_def)
  show ?thesis
    by (simp add: sample_def init_cache_def so)
qed

theorem sample_bad_split_witness:
  "sample example_env 3 ''bogus'' (example_world, Some example_cache)
     = (Inl ValueError, example_world, Some example_cache)
   \<and> sample example_env 3 ''bogus'' (example_world, None)
     = (Inl ValueError, example_world,
        Some [(''7'', Dict [(''id'', Leaf (Str ''7'')), (''walls'', Leaf (Arr example_array))])])
   \<and> sample example_env 3 ''bogus'' (empty_world, None)
     = (Inl (Exception ''ConnectionError''),
        \<lparr>files = Map.empty, dirs = {''.cache''}, requested = [''''],
         logged = [''Downloading '']\<rparr>,
        None)"
proof -
  have a: "add_ids (map (\<lambda>(k, v). (k, map_node Arr v))
                     [(''7'', Dict [(''walls'', Leaf example_array)])])
           = Inr [(''7'', Dict [(''id'', Leaf (Str ''7'')),
                                (''walls'', Leaf (Arr example_array))])]"
    by simp
  from sample_bad_split
         [of "''bogus''" example_env 3 example_world example_cache
             "Exception ''ConnectionError''" example_world
             "[(''7'', Dict [(''walls'', Leaf example_array)])]"
             "[(''7'', Dict [(''id'', Leaf (Str ''7'')), (''walls'', Leaf (Arr example_array))])]"]
       sample_bad_split
         [of "''bogus''" example_env 3 empty_world example_cache
             "Exception ''ConnectionError''"
             "\<lparr>files = Map.empty, dirs = {''.cache''}, requested = [''''],
               logged = [''Downloading '']\<rparr>"]
       geometry_data_example geometry_data_empty_world a
  show ?thesis by simp
qed

text \<open>
  C9 as stated fails on the first call: the split is checked after lines 131 to 134 have run,
  so the failing call leaves the global \<^verbatim>\<open>_cache\<close> materialized where it was \<^verbatim>\<open>None\<close>.
\<close>

theorem sample_bad_split_first_call_counterexample:
  "fst (sample example_env 3 ''bogus'' (example_world, None)) = Inl ValueError
   \<and> snd (snd (sample example_env 3 ''bogus'' (example_world, None)))
       = Some [(''7'', Dict [(''id'', Leaf (Str ''7'')), (''walls'', Leaf (Arr example_array))])]
   \<and> snd (snd (sample example_env 3 ''bogus'' (example_world, None))) \<noteq> None"
  by (simp add: sample_def init_cache_def geometry_data_example select_order_def)

text \<open>
  C10. With one item in the cache the training split is empty, and \<^verbatim>\<open>sample\<close> with a count
  of at least one raises \<^verbatim>\<open>ZeroDivisionError\<close>; so it does on every empty split.
\<close>

theorem sample_empty_split_zero_division:
  assumes "0 < n"
  shows "(length c = 1 \<longrightarrow>
            sample E n ''training'' (w, Some c) = (Inl ZeroDivisionError, w, Some c))
         \<and> (select_order E c split = Inr [] \<longrightarrow>
            sample E n split (w, Some c) = (Inl ZeroDivisionError, w, Some c))"
proof -
  from assms have ne: "[0..<n] \<noteq> []" by simp
  have "length c = 1 \<Longrightarrow> select_order E c ''training'' = Inr []"
    by (simp add: select_order_def)
  with ne show ?thesis
    by (auto simp: sample_def pick_empty_order)
qed

theorem sample_empty_split_zero_division_witness:
  "sample example_env 3 ''training'' (example_world, Some [hd example_cache])
     = (Inl ZeroDivisionError, example_world, Some [hd example_cache])"
  using sample_empty_split_zero_division
    [of 3 "[hd example_cache]" example_env example_world "''training''"]
  by simp

subsection \<open>ParallelDerivation\<close>

lemma pool_wait_world:
  "snd (pool_wait E rows gs w) = w\<lparr>logged := logged w @ failure_records E rows\<rparr>"
proof (induction rows arbitrary: gs w)
  case Nil
  then show ?case by (simp add: failure_records_def)
next
  case (Cons row rows)
  obtain i svg where row: "row = (i, svg)" by (cases row)
  show ?case
  proof (cases "geometry E svg")
    case (Inl e)
    with row Cons.IH show ?thesis
      by (simp add: safe_geometry_def failure_records_def log_info_def)
  next
    case (Inr g)
    with row Cons.IH show ?thesis
      by (simp add: safe_geometry_def failure_records_def)
  qed
qed

lemma pool_wait_results:
  "distinct (map (\<lambda>row. str_of E (fst row)) rows) \<Longrightarrow>
   (\<lambda>row. str_of E (fst row)) ` set rows \<inter> fst ` set gs = {} \<Longrightarrow>
   fst (pool_wait E rows gs w) = gs @ map (outcome E) rows"
proof (induction rows arbitrary: gs w)
  case Nil
  then show ?case by simp
next
  case (Cons row rows)
  obtain i svg where row: "row = (i, svg)" by (cases row)
  from Cons.prems(2) row have fresh: "str_of E i \<notin> fst ` set gs" by auto
  obtain r w' where sg: "safe_geometry E i svg w = (r, w')"
    by (cases "safe_geometry E i svg w")
  then have r: "(str_of E i, r) = outcome E row"
    using row by (auto simp: safe_geometry_def outcome_def split: sum.splits)
  have "fst (pool_wait E rows (gs @ [(str_of E i, r)]) w')
        = (gs @ [(str_of E i, r)]) @ map (outcome E) rows"
  proof (rule Cons.IH)
    show "distinct (map (\<lambda>row. str_of E (fst row)) rows)" using Cons.prems(1) by simp
    show "(\<lambda>row. str_of E (fst row)) ` set rows \<inter> fst ` set (gs @ [(str_of E i, r)]) = {}"
      using Cons.prems row by auto
  qed
  with sg r row fresh show ?case by (simp add: setitem_fresh)
qed

lemma map_filter_outcomes:
  "List.map_filter (\<lambda>(k, v). map_option (Pair k) v) (map (outcome E) rows)
   = List.map_filter
       (\<lambda>row. case geometry E (snd row) of
                 Inr g \<Rightarrow> Some (str_of E (fst row), g)
               | Inl e \<Rightarrow> None) rows"
  by (induction rows) (auto simp: List.map_filter_simps outcome_def split: sum.splits)

lemma length_map_filter_successes:
  "length (List.map_filter
       (\<lambda>row. case geometry E (snd row) of
                 Inr g \<Rightarrow> Some (str_of E (fst row), g)
               | Inl e \<Rightarrow> None) rows)
   + length (filter (\<lambda>row. isl (geometry E (snd row))) rows) = length rows"
  by (induction rows) (auto simp: List.map_filter_simps split: sum.splits)

text \<open>
  C5. Over rows with pairwise different keys, the derivation returns one entry for every row on
  which the transform does not raise, under the row's key and with the value the transform
  returns for that row, in the order of the rows; with \<open>k\<close> rows failing out of \<open>N\<close> these are
  \<open>N - k\<close> entries. Every failing row adds one log record that names its id, and nothing else
  in the world changes: the batch is never aborted.
\<close>

theorem derive_omits_failures:
  assumes "distinct (map (\<lambda>row. str_of E (fst row)) rows)"
  shows "fst (derive E rows w)
           = List.map_filter
               (\<lambda>row. case geometry E (snd row) of
                         Inr g \<Rightarrow> Some (str_of E (fst row), g)
                       | Inl e \<Rightarrow> None) rows
       \<and> length (fst (derive E rows w))
           + length (filter (\<lambda>row. isl (geometry E (snd row))) rows) = length rows
       \<and> snd (derive E rows w)
           = w\<lparr>logged := logged w
                 @ map (\<lambda>row. ''Geometry generation failed on on #'' @ str_of E (fst row))
                     (filter (\<lambda>row. isl (geometry E (snd row))) rows)\<rparr>"
proof -
  have res: "fst (pool_wait E rows [] w) = map (outcome E) rows"
    using pool_wait_results[OF assms, of "[]" w] by simp
  have a: "fst (derive E rows w)
           = List.map_filter
               (\<lambda>row. case geometry E (snd row) of
                         Inr g \<Rightarrow> Some (str_of E (fst row), g)
                       | Inl e \<Rightarrow> None) rows"
    using res map_filter_outcomes[of E rows]
    by (cases "pool_wait E rows [] w") (simp add: derive_def)
  have b: "snd (derive E rows w) = w\<lparr>logged := logged w @ failure_records E rows\<rparr>"
    using pool_wait_world[of E rows "[]" w]
    by (cases "pool_wait E rows [] w") (simp add: derive_def)
  from a b length_map_filter_successes[of E rows] show ?thesis
    by (simp add: failure_records_def)
qed

theorem derive_omits_failures_witness:
  "fst (derive example_env [(''7'', ''<svg>rooms</svg>''), (''8'', ''<svg/>'')] example_world)
     = [(''7'', Dict [(''walls'', Leaf example_array)])]
   \<and> logged (snd (derive example_env [(''7'', ''<svg>rooms</svg>''), (''8'', ''<svg/>'')]
                     example_world))
     = [''Geometry generation failed on on #8'']"
  using derive_omits_failures
    [of example_env "[(''7'', ''<svg>rooms</svg>''), (''8'', ''<svg/>'')]" example_world]
  by (simp add: example_env_def example_world_def List.map_filter_simps)

subsection \<open>ArtifactCache\<close>

text \<open>
  C4. When the file of an artifact is on disk and \<^verbatim>\<open>regenerate\<close> is false, \<^verbatim>\<open>svg_data\<close> and
  \<^verbatim>\<open>geometry_data\<close> leave the world as it is (no request, no log record, no directory, no
  write) and return what the bytes of the file decode to, whatever they are.
\<close>

theorem materialize_cache_hit:
  "(files w ''.cache/cubicasa-svgs.json.gz'' = Some bs \<longrightarrow>
      svg_data E False w
        = (case gzip_decompress E bs of Inl e \<Rightarrow> Inl e | Inr js \<Rightarrow> read_json E js, w))
   \<and> (files w ''.cache/cubicasa-geometry.npz.gz'' = Some gz \<longrightarrow>
      geometry_data E False w
        = (case gzip_decompress E gz of
             Inl e \<Rightarrow> Inl e
           | Inr raw \<Rightarrow>
               (case unzip E raw of
                  Inl e \<Rightarrow> Inl e
                | Inr es \<Rightarrow>
                    (case load_entries E es [] of
                       Inl e \<Rightarrow> Inl e
                     | Inr flat \<Rightarrow> unflatten flat)), w))"
  by (auto simp: svg_data_def geometry_data_def read_bytes_def split: sum.splits)

theorem materialize_cache_hit_witness:
  "svg_data example_env False example_world
     = (Inr [(''7'', ''<svg>rooms</svg>''), (''8'', ''<svg/>'')], example_world)
   \<and> geometry_data example_env False example_world
     = (Inr [(''7'', Dict [(''walls'', Leaf example_array)])], example_world)"
proof -
  have f1: "files example_world ''.cache/cubicasa-svgs.json.gz'' = Some (ascii ''{}'')"
    by (simp add: example_world_def)
  have f2: "files example_world ''.cache/cubicasa-geometry.npz.gz'' = Some (ascii ''PK'')"
    by (simp add: example_world_def)
  have l: "load_entries example_env [(''7/walls.npy'', example_blob)] []
           = Inr [(''7/walls'', example_array)]"
    by (simp add: fastload_def example_env_def example_blob_def ascii_def getitem_def
        frombuffer_def reshape_def reshape_dims_def example_array_def)
  have u: "unflatten [(''7/walls'', example_array)]
           = Inr [(''7'', Dict [(''walls'', Leaf example_array)])]"
    by (simp add: unflatten_def setdefault_def)
  have g: "gzip_decompress example_env = Inr"
    "read_json example_env (ascii ''{}'') = Inr [(''7'', ''<svg>rooms</svg>''), (''8'', ''<svg/>'')]"
    "unzip example_env (ascii ''PK'') = Inr [(''7/walls.npy'', example_blob)]"
    by (simp_all add: example_env_def)
  from materialize_cache_hit[of example_world "ascii ''{}''" example_env "ascii ''PK''"] f1 f2
  have a: "svg_data example_env False example_world
             = (case gzip_decompress example_env (ascii ''{}'') of
                  Inl e \<Rightarrow> Inl e | Inr js \<Rightarrow> read_json example_env js, example_world)"
    and b: "geometry_data example_env False example_world
             = (case gzip_decompress example_env (ascii ''PK'') of
                  Inl e \<Rightarrow> Inl e
                | Inr raw \<Rightarrow>
                    (case unzip example_env raw of
                       Inl e \<Rightarrow> Inl e
                     | Inr es \<Rightarrow>
                         (case load_entries example_env es [] of
                            Inl e \<Rightarrow> Inl e
                          | Inr flat \<Rightarrow> unflatten flat)), example_world)"
    by blast+
  show ?thesis unfolding a b by (simp add: g l u del: load_entries.simps)
qed

end
